theory Spec2Isabelle
  imports Complex_Main
begin

section \<open>Errors\<close>

text \<open>
  Every exception that \<open>Frame.py\<close> can raise is a value of this type:
  \<^item> \<open>CellsNotSet\<close>: \<open>ValueError("Cells are not set")\<close>, raised by \<open>generate_synth_images\<close>;
  \<^item> \<open>EmptyRange\<close>: the \<open>ValueError\<close> of \<open>random.randint(0, -1)\<close> (empty range);
  \<^item> \<open>NoneType\<close>: the \<open>TypeError\<close> of \<open>len(None)\<close>, \<open>enumerate(None)\<close> or of an
    item assignment to \<open>None\<close>;
  \<^item> \<open>IndexOutOfRange\<close>: \<open>IndexError\<close> of a list access;
  \<^item> \<open>ShapeMismatch\<close>: the \<open>ValueError\<close> of numpy when two shapes cannot be broadcast;
  \<^item> \<open>BadPad\<close>: the \<open>ValueError\<close> of \<open>np.pad\<close> (negative width, or an array that is not 3-d);
  \<^item> \<open>Inhomogeneous\<close>: the \<open>ValueError\<close> of \<open>np.array\<close> on slices of different shapes.
\<close>

datatype error =
    CellsNotSet
  | EmptyRange
  | NoneType
  | IndexOutOfRange
  | ShapeMismatch
  | BadPad
  | Inhomogeneous

section \<open>numpy arrays\<close>

text \<open>
  An \<open>ndarray\<close> is its shape and its elements in row-major order (what \<open>ravel()\<close> returns).
  Pixels are real numbers: dtypes, rounding and casts are outside the model.
\<close>

record ndarray =
  shape :: "nat list"
  ravel :: "real list"

definition wf_ndarray :: "ndarray \<Rightarrow> bool" where
  "wf_ndarray a = (length (ravel a) = prod_list (shape a))"

text \<open>\<open>np.full(shape, v)\<close>\<close>

definition np_full :: "nat list \<Rightarrow> real \<Rightarrow> ndarray" where
  "np_full s v = \<lparr>shape = s, ravel = replicate (prod_list s) v\<rparr>"

text \<open>
  \<open>np.array(xs)\<close> for a Python list \<open>xs\<close> of arrays: the empty list gives the 1-d array of
  shape \<open>(0,)\<close>; arrays of one shape are stacked along a new first axis.
\<close>

definition np_array :: "ndarray list \<Rightarrow> error + ndarray" where
  "np_array xs =
     (case xs of
        [] \<Rightarrow> Inr \<lparr>shape = [0], ravel = []\<rparr>
      | x # _ \<Rightarrow>
          if list_all (\<lambda>y. shape y = shape x) xs
          then Inr \<lparr>shape = length xs # shape x, ravel = concat (map ravel xs)\<rparr>
          else Inl Inhomogeneous)"

text \<open>\<open>chunks k m xs\<close> cuts \<open>xs\<close> into \<open>m\<close> consecutive pieces of \<open>k\<close> elements.\<close>

fun chunks :: "nat \<Rightarrow> nat \<Rightarrow> 'a list \<Rightarrow> 'a list list" where
  "chunks k 0 xs = []"
| "chunks k (Suc m) xs = take k xs # chunks k m (drop k xs)"

text \<open>
  \<open>np.pad(a, ((0, 0), (p, p), (p, p)), mode='constant', constant_values=bg)\<close>: the only
  pad widths the Frame uses. A row gets \<open>p\<close> pixels on each side, a slice \<open>p\<close> rows above
  and below.
\<close>

definition pad_row :: "nat \<Rightarrow> real \<Rightarrow> real list \<Rightarrow> real list" where
  "pad_row p bg row = replicate p bg @ row @ replicate p bg"

definition padded_rows :: "nat \<Rightarrow> real \<Rightarrow> nat \<Rightarrow> nat \<Rightarrow> real list \<Rightarrow> real list list" where
  "padded_rows p bg H W sl =
     replicate p (replicate (W + 2 * p) bg)
     @ map (pad_row p bg) (chunks W H sl)
     @ replicate p (replicate (W + 2 * p) bg)"

definition pad_slice :: "nat \<Rightarrow> real \<Rightarrow> nat \<Rightarrow> nat \<Rightarrow> real list \<Rightarrow> real list" where
  "pad_slice p bg H W sl = concat (padded_rows p bg H W sl)"

definition np_pad :: "int \<Rightarrow> real \<Rightarrow> ndarray \<Rightarrow> error + ndarray" where
  "np_pad pad bg a =
     (if length (shape a) \<noteq> 3 \<or> pad < 0 then Inl BadPad
      else
        let Z = shape a ! 0; H = shape a ! 1; W = shape a ! 2; p = nat pad
        in Inr \<lparr>shape = [Z, H + 2 * p, W + 2 * p],
                ravel = concat (map (pad_slice p bg H W) (chunks (H * W) Z (ravel a)))\<rparr>)"

text \<open>Element \<open>a[z, y, x]\<close> of a 3-d array.\<close>

definition get3 :: "ndarray \<Rightarrow> nat \<Rightarrow> nat \<Rightarrow> nat \<Rightarrow> real" where
  "get3 a z y x = ravel a ! ((z * (shape a ! 1) + y) * (shape a ! 2) + x)"

text \<open>
  Broadcasting, as numpy does it: shapes are aligned at their last axis; two extents are
  compatible when they are equal or one of them is 1, and the result takes the other one.
\<close>

fun broadcast_rev :: "nat list \<Rightarrow> nat list \<Rightarrow> nat list option" where
  "broadcast_rev [] ys = Some ys"
| "broadcast_rev (x # xs) [] = Some (x # xs)"
| "broadcast_rev (x # xs) (y # ys) =
     (if x = y \<or> y = 1 then map_option ((#) x) (broadcast_rev xs ys)
      else if x = 1 then map_option ((#) y) (broadcast_rev xs ys)
      else None)"

definition broadcast_shapes :: "nat list \<Rightarrow> nat list \<Rightarrow> nat list option" where
  "broadcast_shapes s t = map_option rev (broadcast_rev (rev s) (rev t))"

text \<open>
  \<open>broadcast_to r s xs\<close>: the elements of an array of shape \<open>s\<close> and elements \<open>xs\<close>
  repeated to the shape \<open>r\<close>, where \<open>s\<close> has been filled with leading 1s to the length of \<open>r\<close>.
\<close>

fun broadcast_to :: "nat list \<Rightarrow> nat list \<Rightarrow> real list \<Rightarrow> real list" where
  "broadcast_to (r # rs) (s # ss) xs =
     (let cs = chunks (prod_list ss) s xs
      in concat (map (broadcast_to rs ss) (if s = r then cs else replicate r (hd cs))))"
| "broadcast_to rs ss xs = xs"

definition lead_ones :: "nat \<Rightarrow> nat list \<Rightarrow> nat list" where
  "lead_ones n s = replicate (n - length s) 1 @ s"

text \<open>\<open>a - b\<close> on arrays.\<close>

definition np_sub :: "ndarray \<Rightarrow> ndarray \<Rightarrow> error + ndarray" where
  "np_sub a b =
     (case broadcast_shapes (shape a) (shape b) of
        None \<Rightarrow> Inl ShapeMismatch
      | Some r \<Rightarrow>
          Inr \<lparr>shape = r,
               ravel = map2 (-) (broadcast_to r (lead_ones (length r) (shape a)) (ravel a))
                               (broadcast_to r (lead_ones (length r) (shape b)) (ravel b))\<rparr>)"

text \<open>\<open>np.linalg.norm(a)\<close> with the default order: the 2-norm of the flattened array.\<close>

definition np_linalg_norm :: "ndarray \<Rightarrow> real" where
  "np_linalg_norm a = sqrt (sum_list (map (\<lambda>v. v\<^sup>2) (ravel a)))"

section \<open>Configuration and cells\<close>

text \<open>
  Modelled from the spec: the class \<open>SimulationConfig\<close> of \<open>Config.py\<close>, of which the Frame
  reads four numeric fields: the slice count \<open>z_slices\<close> (here \<open>cfg_z_slices\<close>, since the
  Frame has an attribute of the same name), \<open>z_scaling\<close>, \<open>padding\<close> and
  \<open>background_color\<close>.
\<close>

record SimulationConfig =
  cfg_z_slices :: int
  z_scaling :: real
  padding :: int
  background_color :: real

text \<open>
  The class \<open>Cell\<close> of \<open>Cells.py\<close> is a collaborator of the Frame; its methods are
  parameters of the model.
  \<^item> \<open>draw c img cfg z\<close> is the canvas after \<open>c.draw(img, cfg, z=z)\<close> has drawn on it in place;
  \<^item> \<open>get_perturbed_cell c r\<close> is \<open>c.get_perturbed_cell()\<close>, where \<open>r\<close> is the outcome of the
    random draws the method makes;
  \<^item> \<open>get_paramaterized_cell c d\<close> is \<open>c.get_paramaterized_cell(d)\<close> for the dictionary \<open>d\<close>;
  \<^item> \<open>get_cell_params c\<close> lists the keys of \<open>c.get_cell_params().__dict__\<close> in order.
\<close>

record ('c, 'r) CellOps =
  draw :: "'c \<Rightarrow> ndarray \<Rightarrow> SimulationConfig \<Rightarrow> real \<Rightarrow> ndarray"
  get_perturbed_cell :: "'c \<Rightarrow> 'r \<Rightarrow> 'c"
  get_paramaterized_cell :: "'c \<Rightarrow> (string \<rightharpoonup> real) \<Rightarrow> 'c"
  get_cell_params :: "'c \<Rightarrow> string list"

section \<open>The Frame\<close>

record 'c Frame =
  z_slices :: "real list"
  cells :: "'c list option"
  simulation_config :: SimulationConfig
  image_name :: string
  real_image_stack :: ndarray
  synth_image_stack :: ndarray

text \<open>
  Line 18 of \<open>Frame.__init__\<close>: \<open>//\<close> is floor division, \<open>range\<close> of a negative count is
  empty. The product is a floating-point product in Python and an exact one here: what is
  proved of the coordinates is their count, their form as a product of the scale factor
  and an integer, and their symmetry, none of which depends on how the product is rounded;
  nothing is proved of the differences of coordinates, which do.
\<close>

definition init_z_slices :: "SimulationConfig \<Rightarrow> real list" where
  "init_z_slices cfg =
     map (\<lambda>i. z_scaling cfg * real_of_int (int i - cfg_z_slices cfg div 2))
         [0 ..< nat (cfg_z_slices cfg)]"

definition get_image_shape :: "'c Frame \<Rightarrow> nat list" where
  "get_image_shape f = tl (shape (real_image_stack f))"

definition generate_synth_images :: "('c, 'r) CellOps \<Rightarrow> 'c Frame \<Rightarrow> error + ndarray" where
  "generate_synth_images ops f =
     (case cells f of
        None \<Rightarrow> Inl CellsNotSet
      | Some cs \<Rightarrow>
          np_array
            (map (\<lambda>z. fold (\<lambda>cell synth_image. draw ops cell synth_image (simulation_config f) z)
                           cs
                           (np_full (get_image_shape f) (background_color (simulation_config f))))
                 (z_slices f)))"

definition calculate_cost :: "'c Frame \<Rightarrow> ndarray \<Rightarrow> error + real" where
  "calculate_cost f synth =
     (case np_sub (real_image_stack f) synth of
        Inl e \<Rightarrow> Inl e
      | Inr d \<Rightarrow> Inr (np_linalg_norm d))"

definition pad_real_image :: "'c Frame \<Rightarrow> error + 'c Frame" where
  "pad_real_image f =
     (case np_pad (padding (simulation_config f)) (background_color (simulation_config f))
                  (real_image_stack f) of
        Inl e \<Rightarrow> Inl e
      | Inr a \<Rightarrow> Inr (f\<lparr>real_image_stack := a\<rparr>))"

text \<open>
  \<open>Frame.__init__\<close>. The attribute \<open>synth_image_stack\<close> does not exist before the last
  line; the record holds the copied real stack there until then, and
  \<open>generate_synth_images\<close> does not read it.
\<close>

definition Frame_init ::
  "('c, 'r) CellOps \<Rightarrow> ndarray \<Rightarrow> SimulationConfig \<Rightarrow> 'c list option \<Rightarrow> string
     \<Rightarrow> error + 'c Frame" where
  "Frame_init ops real_stack cfg cs name =
     (let f0 = \<lparr>z_slices = init_z_slices cfg, cells = cs, simulation_config = cfg,
                image_name = name, real_image_stack = real_stack,
                synth_image_stack = real_stack\<rparr>
      in case pad_real_image f0 of
           Inl e \<Rightarrow> Inl e
         | Inr f1 \<Rightarrow>
             (case generate_synth_images ops f1 of
                Inl e \<Rightarrow> Inl e
              | Inr st \<Rightarrow> Inr (f1\<lparr>synth_image_stack := st\<rparr>)))"

section \<open>Perturbation\<close>

text \<open>
  What the closure \<open>callback\<close> captures when \<open>perturb\<close> returns it: the drawn index, the
  cell that was at that index, and the stack rendered with the perturbed cell.
\<close>

record 'c trial =
  index :: nat
  old_cell :: 'c
  new_synth_image_stack :: ndarray

text \<open>
  \<open>Frame.perturb\<close>. The two random outcomes are arguments: \<open>idx\<close> is the value that
  \<open>random.randint(0, len(self.cells) - 1)\<close> returned and \<open>r\<close> the randomness of
  \<open>get_perturbed_cell\<close>. \<open>randint\<close> raises on an empty range and otherwise returns a
  value of the range, so the \<open>IndexOutOfRange\<close> branch (what \<open>self.cells[index]\<close> would do
  there) only makes the model total. The result is the returned pair and the Frame as the
  call leaves it, with the perturbed cell in place.
\<close>

definition perturb ::
  "('c, 'r) CellOps \<Rightarrow> nat \<Rightarrow> 'r \<Rightarrow> 'c Frame \<Rightarrow> error + ((real \<times> 'c trial) \<times> 'c Frame)" where
  "perturb ops idx r f =
     (case cells f of
        None \<Rightarrow> Inl NoneType
      | Some cs \<Rightarrow>
          if length cs = 0 then Inl EmptyRange
          else if \<not> idx < length cs then Inl IndexOutOfRange
          else
            let old = cs ! idx;
                f1 = f\<lparr>cells := Some (cs[idx := get_perturbed_cell ops (cs ! idx) r])\<rparr>
            in case generate_synth_images ops f1 of
                 Inl e \<Rightarrow> Inl e
               | Inr new_stack \<Rightarrow>
                   (case calculate_cost f1 new_stack of
                      Inl e \<Rightarrow> Inl e
                    | Inr new_cost \<Rightarrow>
                        (case calculate_cost f1 (synth_image_stack f1) of
                           Inl e \<Rightarrow> Inl e
                         | Inr old_cost \<Rightarrow>
                             Inr ((old_cost - new_cost,
                                   \<lparr>index = idx, old_cell = old,
                                    new_synth_image_stack = new_stack\<rparr>),
                                  f1))))"

text \<open>The closure \<open>callback(accept)\<close> of \<open>perturb\<close>, applied to the Frame as it is then.\<close>

definition callback :: "'c trial \<Rightarrow> bool \<Rightarrow> 'c Frame \<Rightarrow> error + 'c Frame" where
  "callback t accept f =
     (if accept then
        (case cells f of
           None \<Rightarrow> Inl NoneType
         | Some cs \<Rightarrow>
             if index t < length cs then Inr (f\<lparr>cells := Some (cs[index t := old_cell t])\<rparr>)
             else Inl IndexOutOfRange)
      else Inr (f\<lparr>synth_image_stack := new_synth_image_stack t\<rparr>))"

section \<open>Gradient descent\<close>

text \<open>The hyperparameters of \<open>gradient_descent\<close>; \<open>1e-3\<close> and \<open>0.1\<close> are read as reals.\<close>

definition moving_delta :: real where
  "moving_delta = 1"

definition delta :: real where
  "delta = 1 / 1000"

definition alpha :: real where
  "alpha = 1 / 10"

text \<open>
  The inner loop \<open>for param, val in params.items()\<close> for the cell at \<open>idx\<close>. It threads the
  list \<open>self.cells\<close> (the same object as \<open>cell_list\<close>) and the dictionary
  \<open>param_gradients\<close>; \<open>old\<close> is the deep copy taken before the loop. The indices come
  from \<open>enumerate\<close> over that list, whose length never changes, so they are in range.
\<close>

fun probe_params ::
  "('c, 'r) CellOps \<Rightarrow> 'c Frame \<Rightarrow> real \<Rightarrow> nat \<Rightarrow> 'c \<Rightarrow> string list
     \<Rightarrow> 'c list \<times> (string \<rightharpoonup> real) \<Rightarrow> error + ('c list \<times> (string \<rightharpoonup> real))" where
  "probe_params ops f orig_cost idx old [] (cs, param_gradients) = Inr (cs, param_gradients)"
| "probe_params ops f orig_cost idx old (param # params) (cs, param_gradients) =
     (if param = ''name'' then probe_params ops f orig_cost idx old params (cs, param_gradients)
      else
        let perterb_param = [param \<mapsto> moving_delta];
            cs1 = cs[idx := get_paramaterized_cell ops (cs ! idx) perterb_param]
        in case generate_synth_images ops (f\<lparr>cells := Some cs1\<rparr>) of
             Inl e \<Rightarrow> Inl e
           | Inr new_stack \<Rightarrow>
               (case calculate_cost (f\<lparr>cells := Some cs1\<rparr>) new_stack of
                  Inl e \<Rightarrow> Inl e
                | Inr new_cost \<Rightarrow>
                    probe_params ops f orig_cost idx old params
                      (cs1[idx := old],
                       param_gradients(param \<mapsto> (new_cost - orig_cost) / delta))))"

text \<open>
  The outer loop \<open>for index, cell in enumerate(cell_list)\<close>, over the indices still to
  visit. \<open>directions\<close> is the \<open>defaultdict(dict)\<close>: an index without an entry reads as the
  empty dictionary.
\<close>

fun gradient_pass ::
  "('c, 'r) CellOps \<Rightarrow> 'c Frame \<Rightarrow> real \<Rightarrow> nat list
     \<Rightarrow> 'c list \<times> (nat \<Rightarrow> string \<rightharpoonup> real) \<Rightarrow> error + ('c list \<times> (nat \<Rightarrow> string \<rightharpoonup> real))" where
  "gradient_pass ops f orig_cost [] (cs, directions) = Inr (cs, directions)"
| "gradient_pass ops f orig_cost (idx # rest) (cs, directions) =
     (let cell = cs ! idx;
          old = cell;
          params = get_cell_params ops cell
      in case probe_params ops f orig_cost idx old params (cs, Map.empty) of
           Inl e \<Rightarrow> Inl e
         | Inr (cs1, param_gradients) \<Rightarrow>
             gradient_pass ops f orig_cost rest
               (cs1,
                directions(idx := directions idx
                                  ++ (\<lambda>param. map_option (\<lambda>gradient. - 1 * alpha * gradient)
                                                        (param_gradients param)))))"

text \<open>The second loop: every cell is replaced by its variant shifted by its directions.\<close>

definition apply_directions ::
  "('c, 'r) CellOps \<Rightarrow> (nat \<Rightarrow> string \<rightharpoonup> real) \<Rightarrow> 'c list \<Rightarrow> 'c list" where
  "apply_directions ops directions cs =
     fold (\<lambda>idx cs'. cs'[idx := get_paramaterized_cell ops (cs' ! idx) (directions idx)])
          [0 ..< length cs] cs"

text \<open>
  \<open>Frame.gradient_descent\<close>. The method returns nothing; the result is the Frame as the
  call leaves it. The last cost is computed and dropped, but its exception is not.
\<close>

definition gradient_descent :: "('c, 'r) CellOps \<Rightarrow> 'c Frame \<Rightarrow> error + 'c Frame" where
  "gradient_descent ops f =
     (case calculate_cost f (synth_image_stack f) of
        Inl e \<Rightarrow> Inl e
      | Inr orig_cost \<Rightarrow>
          (case cells f of
             None \<Rightarrow> Inl NoneType
           | Some cs \<Rightarrow>
               (case gradient_pass ops f orig_cost [0 ..< length cs] (cs, \<lambda>_. Map.empty) of
                  Inl e \<Rightarrow> Inl e
                | Inr (cs1, directions) \<Rightarrow>
                    let f2 = f\<lparr>cells := Some (apply_directions ops directions cs1)\<rparr>
                    in case generate_synth_images ops f2 of
                         Inl e \<Rightarrow> Inl e
                       | Inr st \<Rightarrow>
                           (case calculate_cost (f2\<lparr>synth_image_stack := st\<rparr>) st of
                              Inl e \<Rightarrow> Inl e
                            | Inr new_cost \<Rightarrow> Inr (f2\<lparr>synth_image_stack := st\<rparr>)))))"

section \<open>Specification predicates\<close>

text \<open>
  A sequence of depths is symmetric about zero when reading it backwards gives the
  negated sequence.
\<close>

definition symmetric_about_zero :: "real list \<Rightarrow> bool" where
  "symmetric_about_zero zs = (rev zs = map uminus zs)"

text \<open>
  \<open>Cell.draw\<close> writes into the canvas it is given; an array written in place keeps its
  shape.
\<close>

definition draw_keeps_shape :: "('c, 'r) CellOps \<Rightarrow> bool" where
  "draw_keeps_shape ops = (\<forall>c img cfg z. shape (draw ops c img cfg z) = shape img)"

text \<open>
  The Euclidean norm of the element-wise difference of two sequences of the same length.
\<close>

definition l2_distance :: "real list \<Rightarrow> real list \<Rightarrow> real" where
  "l2_distance xs ys = sqrt (\<Sum>i<length xs. (xs ! i - ys ! i)\<^sup>2)"

text \<open>
  The cost of one probe of a gradient-descent pass, in the words of the specification: the
  cell at \<open>idx\<close> is replaced by its variant shifted by the moving delta on the parameter
  \<open>param\<close> only, the entire stack is rendered again, and its cost is computed.
\<close>

definition probe_cost ::
  "('c, 'r) CellOps \<Rightarrow> 'c Frame \<Rightarrow> 'c list \<Rightarrow> nat \<Rightarrow> string \<Rightarrow> error + real" where
  "probe_cost ops f cs idx param =
     (let probed = f\<lparr>cells := Some (cs[idx := get_paramaterized_cell ops (cs ! idx)
                                                   [param \<mapsto> moving_delta]])\<rparr>
      in case generate_synth_images ops probed of
           Inl e \<Rightarrow> Inl e
         | Inr st \<Rightarrow> calculate_cost probed st)"

text \<open>
  The gradient estimate of the specification for a parameter of the cell at \<open>idx\<close>:
  \<open>(new_cost - orig_cost) / delta\<close> for every parameter but the name, which has none.
\<close>

definition gradient_estimate ::
  "('c, 'r) CellOps \<Rightarrow> 'c Frame \<Rightarrow> real \<Rightarrow> 'c list \<Rightarrow> nat \<Rightarrow> string \<rightharpoonup> real" where
  "gradient_estimate ops f orig_cost cs idx param =
     (if param \<in> set (get_cell_params ops (cs ! idx)) \<and> param \<noteq> ''name''
      then (case probe_cost ops f cs idx param of
              Inl e \<Rightarrow> None
            | Inr new_cost \<Rightarrow> Some ((new_cost - orig_cost) / delta))
      else None)"

text \<open>The descent direction of a parameter: minus the learning rate times its gradient.\<close>

definition descent_directions ::
  "('c, 'r) CellOps \<Rightarrow> 'c Frame \<Rightarrow> real \<Rightarrow> 'c list \<Rightarrow> nat \<Rightarrow> string \<rightharpoonup> real" where
  "descent_directions ops f orig_cost cs idx param =
     map_option (\<lambda>gradient. - alpha * gradient) (gradient_estimate ops f orig_cost cs idx param)"

text \<open>
  The Frames an optimization run can hold: a Frame as constructed, a Frame after a
  perturbation trial whose callback has been called once, right after \<open>perturb\<close>
  returned it, and a Frame after a gradient-descent pass.
\<close>

inductive reachable :: "('c, 'r) CellOps \<Rightarrow> 'c Frame \<Rightarrow> bool" for ops :: "('c, 'r) CellOps" where
  constructed:
    "Frame_init ops real_stack cfg cs name = Inr f \<Longrightarrow> reachable ops f"
| finalized:
    "reachable ops f \<Longrightarrow> perturb ops idx r f = Inr ((d, t), f1) \<Longrightarrow>
     callback t accept f1 = Inr f2 \<Longrightarrow> reachable ops f2"
| descended:
    "reachable ops f \<Longrightarrow> gradient_descent ops f = Inr f' \<Longrightarrow> reachable ops f'"

section \<open>Concrete instances\<close>

text \<open>
  A cell with one tunable parameter \<open>x\<close>, which is the cell itself: drawing adds \<open>x\<close> to
  every pixel, a perturbation adds the random draw to \<open>x\<close>, a parameter shift adds the
  entry for \<open>x\<close>.
\<close>

definition brighten_ops :: "(real, real) CellOps" where
  "brighten_ops =
     \<lparr>draw = (\<lambda>c img cfg z. img\<lparr>ravel := map (\<lambda>v. v + c) (ravel img)\<rparr>),
      get_perturbed_cell = (\<lambda>c r. c + r),
      get_paramaterized_cell = (\<lambda>c d. c + (case d ''x'' of None \<Rightarrow> 0 | Some v \<Rightarrow> v)),
      get_cell_params = (\<lambda>c. [''name'', ''x''])\<rparr>"

definition one_pixel :: ndarray where
  "one_pixel = \<lparr>shape = [1, 1, 1], ravel = [0]\<rparr>"

definition plain_config :: "int \<Rightarrow> SimulationConfig" where
  "plain_config n = \<lparr>cfg_z_slices = n, z_scaling = 1, padding = 0, background_color = 0\<rparr>"

definition three_slice_frame :: "real Frame" where
  "three_slice_frame =
     \<lparr>z_slices = [- 1, 0, 1], cells = Some [], simulation_config = plain_config 3,
      image_name = ''img'', real_image_stack = one_pixel,
      synth_image_stack = \<lparr>shape = [3, 1, 1], ravel = [0, 0, 0]\<rparr>\<rparr>"

definition two_slice_frame :: "real Frame" where
  "two_slice_frame =
     \<lparr>z_slices = [- 1, 0], cells = Some [], simulation_config = plain_config 2,
      image_name = ''img'', real_image_stack = one_pixel,
      synth_image_stack = \<lparr>shape = [2, 1, 1], ravel = [0, 0]\<rparr>\<rparr>"

text \<open>A Frame of one pixel and one slice, with one cell whose parameter is 0.\<close>

definition unit_frame :: "real Frame" where
  "unit_frame =
     \<lparr>z_slices = [0], cells = Some [0], simulation_config = plain_config 1,
      image_name = ''img'', real_image_stack = one_pixel,
      synth_image_stack = \<lparr>shape = [1, 1, 1], ravel = [0]\<rparr>\<rparr>"

text \<open>A bright pixel padded by one background pixel on every side.\<close>

definition bright_pixel :: ndarray where
  "bright_pixel = \<lparr>shape = [1, 1, 1], ravel = [5]\<rparr>"

definition padding_config :: SimulationConfig where
  "padding_config = \<lparr>cfg_z_slices = 1, z_scaling = 1, padding = 1, background_color = 0\<rparr>"

definition padded_frame :: "real Frame" where
  "padded_frame =
     \<lparr>z_slices = [0], cells = Some [], simulation_config = padding_config,
      image_name = ''img'',
      real_image_stack = \<lparr>shape = [1, 3, 3], ravel = [0, 0, 0, 0, 5, 0, 0, 0, 0]\<rparr>,
      synth_image_stack = \<lparr>shape = [1, 3, 3], ravel = [0, 0, 0, 0, 0, 0, 0, 0, 0]\<rparr>\<rparr>"

text \<open>Two stacks of two pixels, at distance 5.\<close>

definition stack_a :: ndarray where
  "stack_a = \<lparr>shape = [1, 1, 2], ravel = [3, 0]\<rparr>"

definition stack_b :: ndarray where
  "stack_b = \<lparr>shape = [1, 1, 2], ravel = [0, 4]\<rparr>"

text \<open>
  The unit Frame after a perturbation drew index 0 and the variant \<open>x = 1\<close>: the trial
  the closure holds, the Frame as \<open>perturb\<close> leaves it, and the Frame with the perturbed
  cell and the new stack. Last, the unit Frame after one gradient-descent pass.
\<close>

definition unit_trial :: "real trial" where
  "unit_trial = \<lparr>index = 0, old_cell = 0,
                 new_synth_image_stack = \<lparr>shape = [1, 1, 1], ravel = [1]\<rparr>\<rparr>"

definition perturbed_frame :: "real Frame" where
  "perturbed_frame = unit_frame\<lparr>cells := Some [1]\<rparr>"

definition committed_frame :: "real Frame" where
  "committed_frame =
     unit_frame\<lparr>cells := Some [1], synth_image_stack := \<lparr>shape = [1, 1, 1], ravel = [1]\<rparr>\<rparr>"

definition descended_frame :: "real Frame" where
  "descended_frame =
     unit_frame\<lparr>cells := Some [- 100],
                synth_image_stack := \<lparr>shape = [1, 1, 1], ravel = [- 100]\<rparr>\<rparr>"

section \<open>Properties\<close>

subsection \<open>Construction\<close>

lemma generate_synth_images_synth_update [simp]:
  "generate_synth_images ops (f\<lparr>synth_image_stack := s\<rparr>) = generate_synth_images ops f"
  by (simp add: generate_synth_images_def get_image_shape_def split: option.split)

lemma Frame_init_Inr:
  assumes "Frame_init ops real_stack cfg cs name = Inr f"
  shows "\<exists>a st. np_pad (padding cfg) (background_color cfg) real_stack = Inr a
           \<and> f = \<lparr>z_slices = init_z_slices cfg, cells = cs, simulation_config = cfg,
                  image_name = name, real_image_stack = a, synth_image_stack = st\<rparr>
           \<and> generate_synth_images ops f = Inr st"
  using assms
  by (auto simp: Frame_init_def pad_real_image_def Let_def generate_synth_images_def
                 get_image_shape_def split: sum.splits option.splits)

lemma three_slice_init:
  "Frame_init brighten_ops one_pixel (plain_config 3) (Some []) ''img'' = Inr three_slice_frame"
  by (simp add: Frame_init_def pad_real_image_def np_pad_def one_pixel_def plain_config_def
        pad_slice_def padded_rows_def pad_row_def generate_synth_images_def get_image_shape_def np_array_def
        np_full_def init_z_slices_def upt_rec numeral_3_eq_3 Let_def three_slice_frame_def)

lemma two_slice_init:
  "Frame_init brighten_ops one_pixel (plain_config 2) (Some []) ''img'' = Inr two_slice_frame"
  by (simp add: Frame_init_def pad_real_image_def np_pad_def one_pixel_def plain_config_def
        pad_slice_def padded_rows_def pad_row_def generate_synth_images_def get_image_shape_def np_array_def
        np_full_def init_z_slices_def upt_rec numeral_2_eq_2 Let_def two_slice_frame_def)

subsection \<open>Z-slice coordinates\<close>

lemma length_init_z_slices: "length (init_z_slices cfg) = nat (cfg_z_slices cfg)"
  by (simp add: init_z_slices_def)

lemma nth_init_z_slices:
  "i < nat (cfg_z_slices cfg) \<Longrightarrow>
   init_z_slices cfg ! i = z_scaling cfg * real_of_int (int i - cfg_z_slices cfg div 2)"
  by (simp add: init_z_slices_def)

lemma init_z_slices_symmetric_iff:
  "symmetric_about_zero (init_z_slices cfg) \<longleftrightarrow>
     (cfg_z_slices cfg \<le> 0 \<or> odd (cfg_z_slices cfg) \<or> z_scaling cfg = 0)"
proof -
  let ?n = "cfg_z_slices cfg"
  let ?m = "nat ?n"
  let ?s = "z_scaling cfg"
  have sym: "symmetric_about_zero (init_z_slices cfg) \<longleftrightarrow>
      (\<forall>i<?m. init_z_slices cfg ! (?m - Suc i) = - init_z_slices cfg ! i)"
    by (auto simp: symmetric_about_zero_def list_eq_iff_nth_eq rev_nth length_init_z_slices)
  have el: "init_z_slices cfg ! (?m - Suc i) = - init_z_slices cfg ! i \<longleftrightarrow>
            (?s = 0 \<or> ?n = 2 * (?n div 2) + 1)" if "i < ?m" for i
  proof -
    have pos: "0 < ?n" using that by simp
    have "int (?m - Suc i) = ?n - 1 - int i"
      using that pos by (simp add: of_nat_diff)
    then have a: "init_z_slices cfg ! (?m - Suc i) = ?s * real_of_int (?n - 1 - int i - ?n div 2)"
      using that by (simp add: nth_init_z_slices)
    have b: "- init_z_slices cfg ! i = ?s * real_of_int (?n div 2 - int i)"
      using that by (simp add: nth_init_z_slices algebra_simps)
    have "?s * real_of_int (?n - 1 - int i - ?n div 2) = ?s * real_of_int (?n div 2 - int i)
          \<longleftrightarrow> (?s = 0 \<or> real_of_int (?n - 1 - int i - ?n div 2) = real_of_int (?n div 2 - int i))"
      by simp
    also have "\<dots> \<longleftrightarrow> (?s = 0 \<or> ?n = 2 * (?n div 2) + 1)"
      by (simp only: of_int_eq_iff) auto
    finally show ?thesis using a b by simp
  qed
  show ?thesis
  proof (cases "?n \<le> 0")
    case True
    then show ?thesis by (simp add: sym)
  next
    case False
    then have "0 < ?m" by simp
    have "(\<forall>i<?m. init_z_slices cfg ! (?m - Suc i) = - init_z_slices cfg ! i)
          \<longleftrightarrow> (?s = 0 \<or> ?n = 2 * (?n div 2) + 1)"
    proof
      assume h: "\<forall>i<?m. init_z_slices cfg ! (?m - Suc i) = - init_z_slices cfg ! i"
      then have "init_z_slices cfg ! (?m - Suc 0) = - init_z_slices cfg ! 0"
        using \<open>0 < ?m\<close> by blast
      then show "?s = 0 \<or> ?n = 2 * (?n div 2) + 1"
        using el [OF \<open>0 < ?m\<close>] by simp
    next
      assume "?s = 0 \<or> ?n = 2 * (?n div 2) + 1"
      then show "\<forall>i<?m. init_z_slices cfg ! (?m - Suc i) = - init_z_slices cfg ! i"
        using el by blast
    qed
    moreover have "?n = 2 * (?n div 2) + 1 \<longleftrightarrow> odd ?n"
      by presburger
    ultimately show ?thesis using False sym by auto
  qed
qed

text \<open>
  C5, as stated, fails: with two slices and scale 1 the coordinates are \<open>[-1, 0]\<close>, which
  are not symmetric about zero.
\<close>

theorem even_slice_count_not_symmetric:
  "Frame_init brighten_ops one_pixel (plain_config 2) (Some []) ''img'' = Inr two_slice_frame
   \<and> z_slices two_slice_frame = [- 1, 0]
   \<and> \<not> symmetric_about_zero (z_slices two_slice_frame)"
  by (simp add: two_slice_init) (simp add: two_slice_frame_def symmetric_about_zero_def)

text \<open>
  C5, amended: the z-slice coordinates of a constructed Frame are as many as the
  configured slice count (none when the count is negative); the coordinate at position
  \<open>i\<close> is the product of the configured z scale factor and the integer
  \<open>i - count div 2\<close>, consecutive positions having consecutive integers; and the sequence
  is symmetric about zero exactly when the slice count is odd, or not positive, or the
  scale factor is zero.
\<close>

theorem z_slices_layout:
  assumes "Frame_init ops real_stack cfg cs name = Inr f"
  shows "length (z_slices f) = nat (cfg_z_slices cfg)
         \<and> (\<forall>i<length (z_slices f).
                z_slices f ! i = z_scaling cfg * real_of_int (int i - cfg_z_slices cfg div 2))
         \<and> (symmetric_about_zero (z_slices f) \<longleftrightarrow>
              (cfg_z_slices cfg \<le> 0 \<or> odd (cfg_z_slices cfg) \<or> z_scaling cfg = 0))"
proof -
  from Frame_init_Inr [OF assms] have "z_slices f = init_z_slices cfg"
    by auto
  then show ?thesis
    by (simp add: length_init_z_slices nth_init_z_slices init_z_slices_symmetric_iff)
qed

theorem z_slices_layout_witness:
  "Frame_init brighten_ops one_pixel (plain_config 3) (Some []) ''img'' = Inr three_slice_frame
   \<and> length (z_slices three_slice_frame) = 3
   \<and> z_slices three_slice_frame ! 0 = - 1
   \<and> z_slices three_slice_frame ! 2 = 1
   \<and> symmetric_about_zero (z_slices three_slice_frame)"
proof -
  have l: "length (z_slices three_slice_frame) = 3"
    by (simp add: three_slice_frame_def)
  note t = z_slices_layout [OF three_slice_init]
  from t l have "z_slices three_slice_frame ! 0
                   = z_scaling (plain_config 3) * real_of_int (int 0 - cfg_z_slices (plain_config 3) div 2)"
    by simp
  then have a: "z_slices three_slice_frame ! 0 = - 1"
    by (simp add: plain_config_def)
  from t l have "z_slices three_slice_frame ! 2
                   = z_scaling (plain_config 3) * real_of_int (int 2 - cfg_z_slices (plain_config 3) div 2)"
    by simp
  then have b: "z_slices three_slice_frame ! 2 = 1"
    by (simp add: plain_config_def)
  from t have "symmetric_about_zero (z_slices three_slice_frame)"
    by (simp add: plain_config_def)
  with a b l three_slice_init show ?thesis
    by simp
qed

subsection \<open>Rendering\<close>

lemma np_array_replicate:
  "np_array (replicate n a) =
     Inr \<lparr>shape = (if n = 0 then [0] else n # shape a), ravel = concat (replicate n (ravel a))\<rparr>"
  by (cases n) (simp_all add: np_array_def list_all_iff)

lemma generate_synth_images_no_cells:
  assumes "cells f = Some []"
  shows "generate_synth_images ops f =
           Inr \<lparr>shape = (if z_slices f = [] then [0]
                         else length (z_slices f) # get_image_shape f),
                ravel = replicate (length (z_slices f) * prod_list (get_image_shape f))
                                  (background_color (simulation_config f))\<rparr>"
proof -
  let ?img = "np_full (get_image_shape f) (background_color (simulation_config f))"
  have "generate_synth_images ops f = np_array (replicate (length (z_slices f)) ?img)"
    using assms by (simp add: generate_synth_images_def map_replicate_const)
  moreover have "concat (replicate n (replicate k v)) = replicate (n * k) v" for n k and v :: real
    by (induction n) (simp_all add: replicate_add)
  ultimately show ?thesis
    by (simp add: np_array_replicate np_full_def)
qed

lemma generate_synth_images_CellsNotSet:
  "generate_synth_images ops f = Inl CellsNotSet \<longleftrightarrow> cells f = None"
  by (auto simp: generate_synth_images_def np_array_def split: option.splits list.splits)

text \<open>
  C10: with an empty list of cells the renderer succeeds; the stack has one slice per
  z-slice coordinate, every slice has the per-slice shape of the real stack, and every
  pixel is the background colour. The error "Cells are not set" is the renderer's result
  exactly when the cells are \<open>None\<close>.
\<close>

theorem empty_cells_render_background:
  "(cells f = Some [] \<longrightarrow>
      (\<exists>st. generate_synth_images ops f = Inr st
            \<and> hd (shape st) = length (z_slices f)
            \<and> (z_slices f \<noteq> [] \<longrightarrow> tl (shape st) = get_image_shape f)
            \<and> length (ravel st) = length (z_slices f) * prod_list (get_image_shape f)
            \<and> (\<forall>v \<in> set (ravel st). v = background_color (simulation_config f))))
   \<and> (generate_synth_images ops f = Inl CellsNotSet \<longleftrightarrow> cells f = None)"
  by (simp add: generate_synth_images_no_cells generate_synth_images_CellsNotSet)

theorem empty_cells_render_background_witness:
  "cells three_slice_frame = Some []
   \<and> generate_synth_images brighten_ops three_slice_frame
       = Inr \<lparr>shape = [3, 1, 1], ravel = [0, 0, 0]\<rparr>
   \<and> generate_synth_images brighten_ops (three_slice_frame\<lparr>cells := None\<rparr>) = Inl CellsNotSet"
proof -
  have a: "cells three_slice_frame = Some []"
    by (simp add: three_slice_frame_def)
  have b: "generate_synth_images brighten_ops three_slice_frame
             = Inr \<lparr>shape = [3, 1, 1], ravel = [0, 0, 0]\<rparr>"
    by (simp add: three_slice_frame_def generate_synth_images_def get_image_shape_def
          np_array_def np_full_def one_pixel_def plain_config_def)
  have c: "cells (three_slice_frame\<lparr>cells := None\<rparr>) = None"
    by simp
  show ?thesis
    using empty_cells_render_background [of three_slice_frame brighten_ops]
          empty_cells_render_background [of "three_slice_frame\<lparr>cells := None\<rparr>" brighten_ops]
          a b c
    by simp
qed

lemma fold_draw_shape:
  "draw_keeps_shape ops \<Longrightarrow>
   shape (fold (\<lambda>cell img. draw ops cell img cfg z) cs img0) = shape img0"
  by (induction cs arbitrary: img0) (simp_all add: draw_keeps_shape_def)

lemma np_array_same_shape:
  assumes "\<forall>x \<in> set xs. shape x = s"
  shows "np_array xs =
           Inr \<lparr>shape = (if xs = [] then [0] else length xs # s),
                ravel = concat (map ravel xs)\<rparr>"
  using assms by (cases xs) (auto simp: np_array_def list_all_iff)

lemma brighten_keeps_shape: "draw_keeps_shape brighten_ops"
  by (simp add: draw_keeps_shape_def brighten_ops_def)

text \<open>
  C9, as stated, fails: nothing ties the number of slices of the real stack to the
  configured slice count. A real stack of one slice with a slice count of two gives a
  synthetic stack of shape \<open>(2, 1, 1)\<close> beside a real stack of shape \<open>(1, 1, 1)\<close>.
\<close>

theorem slice_count_mismatch:
  "Frame_init brighten_ops one_pixel (plain_config 2) (Some []) ''img'' = Inr two_slice_frame
   \<and> generate_synth_images brighten_ops two_slice_frame = Inr (synth_image_stack two_slice_frame)
   \<and> shape (synth_image_stack two_slice_frame) = [2, 1, 1]
   \<and> shape (real_image_stack two_slice_frame) = [1, 1, 1]"
proof -
  have "generate_synth_images brighten_ops two_slice_frame = Inr (synth_image_stack two_slice_frame)"
    by (simp add: two_slice_frame_def generate_synth_images_def get_image_shape_def
          np_array_def np_full_def one_pixel_def plain_config_def)
  then show ?thesis
    by (simp add: two_slice_init) (simp add: two_slice_frame_def one_pixel_def)
qed

text \<open>
  C9, amended: for every Frame whose cells are set, and a \<open>draw\<close> that keeps the shape of
  its canvas, the renderer succeeds; the stack has one slice per z-slice coordinate; each
  slice is a canvas of the per-slice shape of the padded real stack, filled with the
  background value, with every cell drawn onto it in cell-sequence order; and the stack
  has the shape of the padded real stack whenever that stack has as many slices as there
  are z-slice coordinates, and at least one.
\<close>

theorem synth_stack_shape:
  assumes "draw_keeps_shape ops" and "cells f = Some cs"
  shows "\<exists>st. generate_synth_images ops f = Inr st
           \<and> shape st = (if z_slices f = [] then [0]
                         else length (z_slices f) # tl (shape (real_image_stack f)))
           \<and> ravel st =
               concat (map (\<lambda>z. ravel (fold (\<lambda>cell img. draw ops cell img (simulation_config f) z)
                                            cs
                                            (np_full (tl (shape (real_image_stack f)))
                                                     (background_color (simulation_config f)))))
                           (z_slices f))
           \<and> (z_slices f \<noteq> [] \<and> shape (real_image_stack f) \<noteq> []
                \<and> hd (shape (real_image_stack f)) = length (z_slices f)
                \<longrightarrow> shape st = shape (real_image_stack f))"
proof -
  let ?slices = "map (\<lambda>z. fold (\<lambda>cell img. draw ops cell img (simulation_config f) z) cs
                               (np_full (get_image_shape f)
                                        (background_color (simulation_config f))))
                     (z_slices f)"
  have "\<forall>x \<in> set ?slices. shape x = get_image_shape f"
    using assms(1) by (auto simp: fold_draw_shape np_full_def)
  then have "np_array ?slices =
      Inr \<lparr>shape = (if ?slices = [] then [0] else length ?slices # get_image_shape f),
           ravel = concat (map ravel ?slices)\<rparr>"
    by (rule np_array_same_shape)
  then have "generate_synth_images ops f =
      Inr \<lparr>shape = (if z_slices f = [] then [0] else length (z_slices f) # get_image_shape f),
           ravel = concat (map ravel ?slices)\<rparr>"
    using assms(2) by (simp add: generate_synth_images_def)
  moreover have "length (z_slices f) # tl (shape (real_image_stack f)) = shape (real_image_stack f)"
    if "shape (real_image_stack f) \<noteq> []"
       "hd (shape (real_image_stack f)) = length (z_slices f)"
    using that by (metis list.collapse)
  ultimately show ?thesis
    by (simp add: get_image_shape_def comp_def)
qed

theorem synth_stack_shape_witness:
  "draw_keeps_shape brighten_ops
   \<and> cells (unit_frame\<lparr>cells := Some [2, 3]\<rparr>) = Some [2, 3]
   \<and> generate_synth_images brighten_ops (unit_frame\<lparr>cells := Some [2, 3]\<rparr>)
       = Inr \<lparr>shape = [1, 1, 1], ravel = [5]\<rparr>
   \<and> shape (real_image_stack (unit_frame\<lparr>cells := Some [2, 3]\<rparr>)) = [1, 1, 1]"
proof -
  let ?f = "unit_frame\<lparr>cells := Some [2, 3]\<rparr>"
  have c: "cells ?f = Some [2, 3]"
    by simp
  have z: "z_slices ?f = [0]" "shape (real_image_stack ?f) = [1, 1, 1]"
    "background_color (simulation_config ?f) = 0"
    by (simp_all add: unit_frame_def one_pixel_def plain_config_def)
  from synth_stack_shape [OF brighten_keeps_shape c]
  obtain st where st: "generate_synth_images brighten_ops ?f = Inr st"
    "shape st = (if z_slices ?f = [] then [0]
                 else length (z_slices ?f) # tl (shape (real_image_stack ?f)))"
    "ravel st =
       concat (map (\<lambda>z. ravel (fold (\<lambda>cell img. draw brighten_ops cell img (simulation_config ?f) z)
                                    [2, 3]
                                    (np_full (tl (shape (real_image_stack ?f)))
                                             (background_color (simulation_config ?f)))))
                   (z_slices ?f))"
    by blast
  have "shape st = [1, 1, 1]"
    using st(2) by (simp only: z) simp
  moreover have "ravel st = [5]"
    using st(3) by (simp only: z) (simp add: np_full_def brighten_ops_def)
  ultimately have "st = \<lparr>shape = [1, 1, 1], ravel = [5]\<rparr>"
    by (cases st) simp
  then show ?thesis
    using st(1) brighten_keeps_shape z(2) by simp
qed

subsection \<open>Missing and empty cells\<close>

lemma three_slice_render:
  "generate_synth_images brighten_ops three_slice_frame
     = Inr \<lparr>shape = [3, 1, 1], ravel = [0, 0, 0]\<rparr>"
  by (simp add: three_slice_frame_def generate_synth_images_def get_image_shape_def
        np_array_def np_full_def one_pixel_def plain_config_def)

text \<open>
  C6, as stated, fails: with an empty list of cells, construction and rendering succeed.
\<close>

theorem empty_cells_accepted:
  "Frame_init brighten_ops one_pixel (plain_config 3) (Some []) ''img'' = Inr three_slice_frame
   \<and> cells three_slice_frame = Some []
   \<and> generate_synth_images brighten_ops three_slice_frame
       = Inr \<lparr>shape = [3, 1, 1], ravel = [0, 0, 0]\<rparr>"
  by (simp add: three_slice_init three_slice_render) (simp add: three_slice_frame_def)

text \<open>
  C6, amended: when the cells are \<open>None\<close>, rendering fails with the explicit error "Cells
  are not set", and so does construction once the real stack has been padded; when the
  cells are an empty list, the start of a perturbation trial fails, with the error of the
  random index draw on an empty range.
\<close>

theorem missing_cells_errors:
  "(cells f = None \<longrightarrow> generate_synth_images ops f = Inl CellsNotSet)
   \<and> (np_pad (padding cfg) (background_color cfg) real_stack = Inr a \<longrightarrow>
        Frame_init ops real_stack cfg None name = Inl CellsNotSet)
   \<and> (cells f = Some [] \<longrightarrow> perturb ops idx r f = Inl EmptyRange)"
  by (simp add: generate_synth_images_def Frame_init_def pad_real_image_def perturb_def)

theorem missing_cells_errors_witness:
  "cells (three_slice_frame\<lparr>cells := None\<rparr>) = None
   \<and> generate_synth_images brighten_ops (three_slice_frame\<lparr>cells := None\<rparr>) = Inl CellsNotSet
   \<and> np_pad (padding (plain_config 3)) (background_color (plain_config 3)) one_pixel
       = Inr one_pixel
   \<and> Frame_init brighten_ops one_pixel (plain_config 3) None ''img'' = Inl CellsNotSet
   \<and> cells three_slice_frame = Some []
   \<and> perturb brighten_ops 0 1 three_slice_frame = Inl EmptyRange"
proof -
  have a: "cells (three_slice_frame\<lparr>cells := None\<rparr>) = None"
    by simp
  have b: "np_pad (padding (plain_config 3)) (background_color (plain_config 3)) one_pixel
             = Inr one_pixel"
    by (simp add: np_pad_def plain_config_def one_pixel_def pad_slice_def padded_rows_def pad_row_def)
  have c: "cells three_slice_frame = Some []"
    by (simp add: three_slice_frame_def)
  show ?thesis
    using missing_cells_errors [where f = "three_slice_frame\<lparr>cells := None\<rparr>"
            and ops = brighten_ops and cfg = "plain_config 3" and real_stack = one_pixel
            and a = one_pixel and name = "''img''" and idx = 0 and r = 1]
          missing_cells_errors [where f = three_slice_frame
            and ops = brighten_ops and cfg = "plain_config 3" and real_stack = one_pixel
            and a = one_pixel and name = "''img''" and idx = 0 and r = 1]
          a b c
    by simp
qed

subsection \<open>Padding\<close>

lemma length_chunks [simp]: "length (chunks k m xs) = m"
  by (induction m arbitrary: xs) simp_all

lemma nth_chunks: "i < m \<Longrightarrow> chunks k m xs ! i = take k (drop (i * k) xs)"
proof (induction m arbitrary: xs i)
  case 0
  then show ?case by simp
next
  case (Suc m)
  show ?case
  proof (cases i)
    case 0
    then show ?thesis by simp
  next
    case (Suc j)
    with Suc.prems have "j < m" by simp
    from Suc.IH [OF this, of "drop k xs"] Suc show ?thesis
      by (simp add: add.commute)
  qed
qed

lemma chunks_lengths:
  "k * m \<le> length xs \<Longrightarrow> c \<in> set (chunks k m xs) \<Longrightarrow> length c = k"
proof (induction m arbitrary: xs)
  case 0
  then show ?case by simp
next
  case (Suc m)
  from Suc.prems(1) have "k + k * m \<le> length xs"
    by simp
  then have "k \<le> length xs" and d: "k * m \<le> length (drop k xs)"
    by simp_all
  from Suc.prems(2) have "c = take k xs \<or> c \<in> set (chunks k m (drop k xs))"
    by simp
  then show ?case
    using Suc.IH [OF d] \<open>k \<le> length xs\<close> by auto
qed

lemma concat_chunks: "length xs = k * m \<Longrightarrow> concat (chunks k m xs) = xs"
proof (induction m arbitrary: xs)
  case 0
  then show ?case by simp
next
  case (Suc m)
  then have "length (drop k xs) = k * m" by simp
  with Suc.IH show ?case by simp
qed

lemma length_concat_uniform:
  "\<forall>xs \<in> set xss. length xs = n \<Longrightarrow> length (concat xss) = length xss * n"
  by (induction xss) simp_all

lemma nth_concat_uniform:
  "\<forall>xs \<in> set xss. length xs = n \<Longrightarrow> i < length xss \<Longrightarrow> j < n \<Longrightarrow>
   concat xss ! (i * n + j) = xss ! i ! j"
proof (induction xss arbitrary: i)
  case Nil
  then show ?case by simp
next
  case (Cons xs xss)
  show ?case
  proof (cases i)
    case 0
    with Cons.prems show ?thesis by (simp add: nth_append)
  next
    case (Suc i')
    with Cons.prems have "concat xss ! (i' * n + j) = xss ! i' ! j"
      by (intro Cons.IH) simp_all
    with Suc Cons.prems show ?thesis
      by (simp add: nth_append add.assoc)
  qed
qed


lemma length_pad_row: "length (pad_row p bg row) = length row + 2 * p"
  by (simp add: pad_row_def)

lemma nth_pad_row:
  "x < length row + 2 * p \<Longrightarrow>
   pad_row p bg row ! x = (if x < p \<or> length row + p \<le> x then bg else row ! (x - p))"
  by (auto simp: pad_row_def nth_append)

lemma pad_slice_rows: "pad_slice p bg H W sl = concat (padded_rows p bg H W sl)"
  by (simp add: pad_slice_def)

lemma padded_rows_lengths:
  assumes "W * H \<le> length sl"
  shows "\<forall>row \<in> set (padded_rows p bg H W sl). length row = W + 2 * p"
  using chunks_lengths [OF assms]
  by (auto simp: padded_rows_def length_pad_row)

lemma length_padded_rows: "length (padded_rows p bg H W sl) = H + 2 * p"
  by (simp add: padded_rows_def)

lemma length_pad_slice:
  "W * H \<le> length sl \<Longrightarrow> length (pad_slice p bg H W sl) = (H + 2 * p) * (W + 2 * p)"
  by (simp add: pad_slice_rows length_concat_uniform [OF padded_rows_lengths] length_padded_rows)

lemma nth_padded_rows:
  assumes "W * H \<le> length sl" and "y < H + 2 * p" and "x < W + 2 * p"
  shows "padded_rows p bg H W sl ! y ! x =
           (if y < p \<or> H + p \<le> y \<or> x < p \<or> W + p \<le> x then bg
            else sl ! ((y - p) * W + (x - p)))"
proof -
  consider "y < p" | "p \<le> y" "y < p + H" | "p + H \<le> y"
    by linarith
  then show ?thesis
  proof cases
    case 1
    with assms show ?thesis by (simp add: padded_rows_def nth_append)
  next
    case 2
    then have yH: "y - p < H" by linarith
    have len: "length (chunks W H sl ! (y - p)) = W"
      using chunks_lengths [OF assms(1)] yH by simp
    have row: "padded_rows p bg H W sl ! y = pad_row p bg (chunks W H sl ! (y - p))"
      using 2 yH by (simp add: padded_rows_def nth_append)
    show ?thesis
    proof (cases "x < p \<or> W + p \<le> x")
      case True
      with 2 assms(3) len show ?thesis
        by (simp add: row nth_pad_row)
    next
      case False
      then have xW: "x - p < W" by linarith
      have "(y - p) * W + (x - p) < length sl"
      proof -
        have "(y - p) * W + (x - p) < (y - p) * W + W" using xW by simp
        also have "\<dots> = Suc (y - p) * W" by simp
        also have "\<dots> \<le> H * W" using yH by (intro mult_le_mono1) simp
        finally show ?thesis using assms(1) by (simp add: mult.commute)
      qed
      then have "chunks W H sl ! (y - p) ! (x - p) = sl ! ((y - p) * W + (x - p))"
        using yH xW by (simp add: nth_chunks)
      with False 2 assms(3) len show ?thesis
        by (simp add: row nth_pad_row)
    qed
  next
    case 3
    with assms(2) have "y - (p + H) < p" and "\<not> y - p < H" and "\<not> y < p" and "H + p \<le> y"
      by linarith+
    then have "padded_rows p bg H W sl ! y = replicate (W + 2 * p) bg"
      by (simp add: padded_rows_def nth_append)
    with assms(3) \<open>H + p \<le> y\<close> show ?thesis
      by simp
  qed
qed

lemma nth_pad_slice:
  assumes "W * H \<le> length sl" and "y < H + 2 * p" and "x < W + 2 * p"
  shows "pad_slice p bg H W sl ! (y * (W + 2 * p) + x) =
           (if y < p \<or> H + p \<le> y \<or> x < p \<or> W + p \<le> x then bg
            else sl ! ((y - p) * W + (x - p)))"
  using nth_concat_uniform [OF padded_rows_lengths [OF assms(1)], of y p bg x] assms
  by (simp add: pad_slice_rows length_padded_rows nth_padded_rows)


lemma index_bound:
  fixes y x H W :: nat
  assumes "y < H" and "x < W"
  shows "y * W + x < H * W"
proof -
  have "y * W + x < y * W + W" using assms(2) by simp
  also have "\<dots> = Suc y * W" by simp
  also have "\<dots> \<le> H * W" using assms(1) by (intro mult_le_mono1) simp
  finally show ?thesis .
qed

lemma np_pad_get3:
  assumes pad: "np_pad pad bg a = Inr b"
      and sh: "shape a = [Z, H, W]" and wf: "wf_ndarray a"
      and z: "z < Z" and y: "y < H + 2 * nat pad" and x: "x < W + 2 * nat pad"
  shows "get3 b z y x =
           (if y < nat pad \<or> H + nat pad \<le> y \<or> x < nat pad \<or> W + nat pad \<le> x then bg
            else get3 a z (y - nat pad) (x - nat pad))"
proof -
  let ?p = "nat pad"
  let ?H = "H + 2 * ?p"
  let ?W = "W + 2 * ?p"
  let ?cs = "chunks (H * W) Z (ravel a)"
  have len: "length (ravel a) = Z * H * W"
    using wf sh by (simp add: wf_ndarray_def)
  then have cl: "(H * W) * Z \<le> length (ravel a)"
    by (simp add: mult.commute mult.left_commute)
  have b: "shape b = [Z, ?H, ?W]" "ravel b = concat (map (pad_slice ?p bg H W) ?cs)"
    using pad sh by (auto simp: np_pad_def Let_def split: if_splits)
  have clen: "length c = H * W" if "c \<in> set ?cs" for c
    using chunks_lengths [OF cl that] .
  have slen: "\<forall>s \<in> set (map (pad_slice ?p bg H W) ?cs). length s = ?H * ?W"
    using clen by (auto simp: length_pad_slice mult.commute)
  have j: "y * ?W + x < ?H * ?W"
    using index_bound [OF y x] .
  have "get3 b z y x = ravel b ! (z * (?H * ?W) + (y * ?W + x))"
    by (simp add: get3_def b algebra_simps)
  also have "\<dots> = map (pad_slice ?p bg H W) ?cs ! z ! (y * ?W + x)"
    unfolding b(2) using nth_concat_uniform [OF slen _ j, of z] z by simp
  also have "\<dots> = pad_slice ?p bg H W (?cs ! z) ! (y * ?W + x)"
    using z by simp
  also have "\<dots> = (if y < ?p \<or> H + ?p \<le> y \<or> x < ?p \<or> W + ?p \<le> x then bg
                    else (?cs ! z) ! ((y - ?p) * W + (x - ?p)))"
  proof -
    have "?cs ! z \<in> set ?cs" using z by simp
    then have "W * H \<le> length (?cs ! z)"
      using clen by (simp add: mult.commute)
    then show ?thesis
      using nth_pad_slice [OF _ y x] by simp
  qed
  finally have step: "get3 b z y x =
      (if y < ?p \<or> H + ?p \<le> y \<or> x < ?p \<or> W + ?p \<le> x then bg
       else (?cs ! z) ! ((y - ?p) * W + (x - ?p)))" .
  show ?thesis
  proof (cases "y < ?p \<or> H + ?p \<le> y \<or> x < ?p \<or> W + ?p \<le> x")
    case True
    with step show ?thesis by simp
  next
    case False
    then have yy: "y - ?p < H" and xx: "x - ?p < W"
      by linarith+
    have k: "(y - ?p) * W + (x - ?p) < H * W"
      using index_bound [OF yy xx] .
    have "z * (H * W) + ((y - ?p) * W + (x - ?p)) < Z * (H * W)"
      using index_bound [OF z k] .
    then have inb: "z * (H * W) + ((y - ?p) * W + (x - ?p)) < length (ravel a)"
      using len by (simp add: mult.assoc)
    have "(?cs ! z) ! ((y - ?p) * W + (x - ?p))
            = ravel a ! (z * (H * W) + ((y - ?p) * W + (x - ?p)))"
      using z k inb by (simp add: nth_chunks)
    also have "\<dots> = get3 a z (y - ?p) (x - ?p)"
      by (simp add: get3_def sh algebra_simps)
    finally show ?thesis
      using step False by simp
  qed
qed

text \<open>
  C7: after a construction that succeeds, from a real stack that is a 3-d array of shape
  \<open>(Z, H, W)\<close> and a configuration with padding \<open>p\<close>, the padding is not negative, the
  padded real stack has shape \<open>(Z, H + 2p, W + 2p)\<close>, every pixel of the added border
  is the background value, and the pixels inside the border are those of the input.
\<close>

theorem padded_real_stack:
  assumes "Frame_init ops real_stack cfg cs name = Inr f"
      and "shape real_stack = [Z, H, W]" and "wf_ndarray real_stack"
  shows "0 \<le> padding cfg
         \<and> shape (real_image_stack f)
             = [Z, H + 2 * nat (padding cfg), W + 2 * nat (padding cfg)]
         \<and> (\<forall>z<Z. \<forall>y<H + 2 * nat (padding cfg). \<forall>x<W + 2 * nat (padding cfg).
               get3 (real_image_stack f) z y x =
                 (if y < nat (padding cfg) \<or> H + nat (padding cfg) \<le> y
                     \<or> x < nat (padding cfg) \<or> W + nat (padding cfg) \<le> x
                  then background_color cfg
                  else get3 real_stack z (y - nat (padding cfg)) (x - nat (padding cfg))))"
proof -
  from Frame_init_Inr [OF assms(1)] obtain a where
    a: "np_pad (padding cfg) (background_color cfg) real_stack = Inr a"
    and f: "real_image_stack f = a"
    by auto
  have "0 \<le> padding cfg"
    using a by (auto simp: np_pad_def split: if_splits)
  moreover have "shape a = [Z, H + 2 * nat (padding cfg), W + 2 * nat (padding cfg)]"
    using a assms(2) by (auto simp: np_pad_def Let_def split: if_splits)
  ultimately show ?thesis
    using np_pad_get3 [OF a assms(2,3)] f by simp
qed

lemma padded_frame_init:
  "Frame_init brighten_ops bright_pixel padding_config (Some []) ''img'' = Inr padded_frame"
  by (simp add: Frame_init_def pad_real_image_def np_pad_def bright_pixel_def
        padding_config_def pad_slice_def padded_rows_def pad_row_def generate_synth_images_def
        get_image_shape_def np_array_def np_full_def init_z_slices_def Let_def
        padded_frame_def numeral_3_eq_3)

theorem padded_real_stack_witness:
  "Frame_init brighten_ops bright_pixel padding_config (Some []) ''img'' = Inr padded_frame
   \<and> shape bright_pixel = [1, 1, 1] \<and> wf_ndarray bright_pixel
   \<and> padding padding_config = 1
   \<and> shape (real_image_stack padded_frame) = [1, 3, 3]
   \<and> get3 (real_image_stack padded_frame) 0 0 2 = 0
   \<and> get3 (real_image_stack padded_frame) 0 1 1 = 5"
proof -
  have sh: "shape bright_pixel = [1, 1, 1]" and wf: "wf_ndarray bright_pixel"
    by (simp_all add: bright_pixel_def wf_ndarray_def)
  have p: "padding padding_config = 1" "background_color padding_config = 0"
    by (simp_all add: padding_config_def)
  note t = padded_real_stack [OF padded_frame_init sh wf, unfolded p]
  from t have "shape (real_image_stack padded_frame) = [1, 3, 3]"
    by simp
  moreover from t have "get3 (real_image_stack padded_frame) 0 0 2 = 0"
    by simp
  moreover from t have "get3 (real_image_stack padded_frame) 0 1 1 = get3 bright_pixel 0 0 0"
    by simp
  then have "get3 (real_image_stack padded_frame) 0 1 1 = 5"
    by (simp add: get3_def bright_pixel_def)
  ultimately show ?thesis
    using padded_frame_init sh wf p by simp
qed

subsection \<open>Cost\<close>

lemma broadcast_rev_same: "broadcast_rev s s = Some s"
  by (induction s) simp_all

lemma broadcast_shapes_same: "broadcast_shapes s s = Some s"
  by (simp add: broadcast_shapes_def broadcast_rev_same)

lemma lead_ones_same: "lead_ones (length s) s = s"
  by (simp add: lead_ones_def)

lemma broadcast_to_same: "length xs = prod_list s \<Longrightarrow> broadcast_to s s xs = xs"
proof (induction s arbitrary: xs)
  case Nil
  then show ?case by simp
next
  case (Cons n s)
  have len: "length xs = prod_list s * n"
    using Cons.prems by (simp add: mult.commute)
  then have "prod_list s * n \<le> length xs" by simp
  then have "\<forall>c \<in> set (chunks (prod_list s) n xs). length c = prod_list s"
    using chunks_lengths by blast
  then have "map (broadcast_to s s) (chunks (prod_list s) n xs) = chunks (prod_list s) n xs"
    using Cons.IH by (simp add: map_idI)
  then show ?case
    using concat_chunks [OF len] by simp
qed

lemma np_sub_same_shape:
  assumes "shape a = shape b" and "wf_ndarray a" and "wf_ndarray b"
  shows "np_sub a b = Inr \<lparr>shape = shape a, ravel = map2 (-) (ravel a) (ravel b)\<rparr>"
  using assms
  by (simp add: np_sub_def broadcast_shapes_same lead_ones_same broadcast_to_same wf_ndarray_def)

lemma sum_list_map2_sq:
  "length xs = length ys \<Longrightarrow>
   sum_list (map (\<lambda>v. v\<^sup>2) (map2 (-) xs ys)) = (\<Sum>i<length xs. (xs ! i - ys ! i)\<^sup>2)"
proof -
  assume l: "length xs = length ys"
  have "sum_list (map (\<lambda>v. v\<^sup>2) (map2 (-) xs ys))
          = (\<Sum>i<length (map2 (-) xs ys). (map (\<lambda>v. v\<^sup>2) (map2 (-) xs ys)) ! i)"
    by (simp add: sum_list_sum_nth atLeast0LessThan)
  also have "\<dots> = (\<Sum>i<length xs. (xs ! i - ys ! i)\<^sup>2)"
    using l by (intro sum.cong) simp_all
  finally show ?thesis .
qed

lemma calculate_cost_same_shape:
  assumes "shape (real_image_stack f) = shape b"
      and "wf_ndarray (real_image_stack f)" and "wf_ndarray b"
  shows "calculate_cost f b = Inr (l2_distance (ravel (real_image_stack f)) (ravel b))"
proof -
  have "length (ravel (real_image_stack f)) = length (ravel b)"
    using assms by (simp add: wf_ndarray_def)
  from sum_list_map2_sq [OF this] show ?thesis
    using assms
    by (simp only: calculate_cost_def np_sub_same_shape np_linalg_norm_def l2_distance_def
          sum.case ndarray.simps)
qed

lemma l2_distance_sym:
  "length xs = length ys \<Longrightarrow> l2_distance xs ys = l2_distance ys xs"
  by (simp add: l2_distance_def power2_commute)

lemma l2_distance_nonneg: "0 \<le> l2_distance xs ys"
  by (simp add: l2_distance_def sum_nonneg)

lemma l2_distance_self: "l2_distance xs xs = 0"
  by (simp add: l2_distance_def)

text \<open>
  C8: for stacks \<open>A\<close> and \<open>B\<close> of equal shape, the cost of \<open>B\<close> in a Frame whose real
  stack is \<open>A\<close> is the Euclidean norm of their element-wise difference; it is the cost of
  \<open>A\<close> in a Frame whose real stack is \<open>B\<close>, it is not negative, and the cost of \<open>A\<close>
  against itself is 0.
\<close>

theorem cost_is_l2_metric:
  assumes "shape A = shape B" and "wf_ndarray A" and "wf_ndarray B"
  shows "calculate_cost (f\<lparr>real_image_stack := A\<rparr>) B = Inr (l2_distance (ravel A) (ravel B))
         \<and> calculate_cost (f\<lparr>real_image_stack := B\<rparr>) A
             = calculate_cost (f\<lparr>real_image_stack := A\<rparr>) B
         \<and> 0 \<le> l2_distance (ravel A) (ravel B)
         \<and> calculate_cost (f\<lparr>real_image_stack := A\<rparr>) A = Inr 0"
proof -
  have l: "length (ravel A) = length (ravel B)"
    using assms by (simp add: wf_ndarray_def)
  show ?thesis
    using assms l
    by (simp add: calculate_cost_same_shape l2_distance_sym [OF l] l2_distance_nonneg
          l2_distance_self)
qed

theorem cost_is_l2_metric_witness:
  "shape stack_a = shape stack_b \<and> wf_ndarray stack_a \<and> wf_ndarray stack_b
   \<and> calculate_cost (unit_frame\<lparr>real_image_stack := stack_a\<rparr>) stack_b = Inr 5
   \<and> calculate_cost (unit_frame\<lparr>real_image_stack := stack_b\<rparr>) stack_a = Inr 5
   \<and> calculate_cost (unit_frame\<lparr>real_image_stack := stack_a\<rparr>) stack_a = Inr 0"
proof -
  have h: "shape stack_a = shape stack_b" "wf_ndarray stack_a" "wf_ndarray stack_b"
    by (simp_all add: stack_a_def stack_b_def wf_ndarray_def)
  have "(\<Sum>i<2. ([3, 0] ! i - [0, 4 :: real] ! i)\<^sup>2) = 5\<^sup>2"
    by (simp add: numeral_2_eq_2)
  then have "l2_distance (ravel stack_a) (ravel stack_b) = sqrt (5\<^sup>2)"
    by (simp add: l2_distance_def stack_a_def stack_b_def)
  then have d: "l2_distance (ravel stack_a) (ravel stack_b) = 5"
    by (simp only: real_sqrt_abs abs_numeral)
  show ?thesis
    using cost_is_l2_metric [OF h, of unit_frame] h d by simp
qed

subsection \<open>The unit Frame\<close>

lemma one_pixel_cost:
  assumes "real_image_stack f = \<lparr>shape = [Suc 0, Suc 0, Suc 0], ravel = [u]\<rparr>"
  shows "calculate_cost f \<lparr>shape = [Suc 0, Suc 0, Suc 0], ravel = [v]\<rparr> = Inr \<bar>u - v\<bar>"
proof -
  have "calculate_cost f \<lparr>shape = [Suc 0, Suc 0, Suc 0], ravel = [v]\<rparr>
          = Inr (l2_distance [u] [v])"
    using calculate_cost_same_shape [of f "\<lparr>shape = [Suc 0, Suc 0, Suc 0], ravel = [v]\<rparr>"] assms
    by (simp add: wf_ndarray_def)
  then show ?thesis
    by (simp add: l2_distance_def)
qed

lemma unit_real [simp]:
  "real_image_stack (unit_frame\<lparr>cells := c\<rparr>) = \<lparr>shape = [1, 1, 1], ravel = [0]\<rparr>"
  by (simp add: unit_frame_def one_pixel_def)

lemma unit_render:
  "generate_synth_images brighten_ops (unit_frame\<lparr>cells := Some [x]\<rparr>)
     = Inr \<lparr>shape = [1, 1, 1], ravel = [x]\<rparr>"
  by (simp add: unit_frame_def generate_synth_images_def get_image_shape_def np_array_def
        np_full_def one_pixel_def plain_config_def brighten_ops_def)

lemma unit_frame_cells: "unit_frame\<lparr>cells := Some [0]\<rparr> = unit_frame"
  by (simp add: unit_frame_def)

lemma unit_init:
  "Frame_init brighten_ops one_pixel (plain_config 1) (Some [0]) ''img'' = Inr unit_frame"
  by (simp add: Frame_init_def pad_real_image_def np_pad_def one_pixel_def plain_config_def
        pad_slice_def padded_rows_def pad_row_def generate_synth_images_def get_image_shape_def
        np_array_def np_full_def init_z_slices_def Let_def unit_frame_def brighten_ops_def)

lemma unit_perturb:
  "perturb brighten_ops 0 1 unit_frame = Inr ((- 1, unit_trial), perturbed_frame)"
proof -
  have c: "cells unit_frame = Some [0]" "synth_image_stack unit_frame = \<lparr>shape = [1, 1, 1], ravel = [0]\<rparr>"
    by (simp_all add: unit_frame_def)
  have g: "get_perturbed_cell brighten_ops 0 1 = 1"
    by (simp add: brighten_ops_def)
  show ?thesis
    by (simp add: perturb_def c g unit_render one_pixel_cost unit_trial_def perturbed_frame_def
          Let_def)
qed

lemma unit_descent: "gradient_descent brighten_ops unit_frame = Inr descended_frame"
proof -
  have c: "cells unit_frame = Some [0]" "synth_image_stack unit_frame = \<lparr>shape = [1, 1, 1], ravel = [0]\<rparr>"
    "real_image_stack unit_frame = \<lparr>shape = [1, 1, 1], ravel = [0]\<rparr>"
    by (simp_all add: unit_frame_def one_pixel_def)
  have o: "calculate_cost unit_frame (synth_image_stack unit_frame) = Inr 0"
    by (simp add: c one_pixel_cost)
  have g: "get_cell_params brighten_ops c = [''name'', ''x'']"
    "get_paramaterized_cell brighten_ops c d = c + (case d ''x'' of None \<Rightarrow> 0 | Some v \<Rightarrow> v)"
    for c d
    by (simp_all add: brighten_ops_def)
  have p: "gradient_pass brighten_ops unit_frame 0 [0 ..< length [0::real]] ([0], \<lambda>_. Map.empty)
             = Inr ([0], (\<lambda>_. Map.empty)(0 := [''x'' \<mapsto> - 100]))"
    by (simp add: g unit_render one_pixel_cost moving_delta_def delta_def alpha_def
          map_add_def fun_eq_iff Let_def)
  show ?thesis
    by (simp add: gradient_descent_def o c p apply_directions_def g unit_render one_pixel_cost
          descended_frame_def Let_def moving_delta_def delta_def alpha_def)
qed

subsection \<open>Perturbation trials\<close>

lemma perturb_Inr:
  assumes "perturb ops idx r f = Inr ((d, t), f1)"
  shows "\<exists>cs new_cost old_cost.
           cells f = Some cs \<and> idx < length cs
           \<and> f1 = f\<lparr>cells := Some (cs[idx := get_perturbed_cell ops (cs ! idx) r])\<rparr>
           \<and> index t = idx \<and> old_cell t = cs ! idx
           \<and> generate_synth_images ops f1 = Inr (new_synth_image_stack t)
           \<and> calculate_cost f1 (new_synth_image_stack t) = Inr new_cost
           \<and> calculate_cost f1 (synth_image_stack f) = Inr old_cost
           \<and> d = old_cost - new_cost"
  using assms
  by (auto simp: perturb_def Let_def split: option.splits if_splits sum.splits)

lemma callback_after_perturb:
  assumes "perturb ops idx r f = Inr ((d, t), f1)"
  shows "callback t True f1 = Inr f"
    and "callback t False f1 = Inr (f1\<lparr>synth_image_stack := new_synth_image_stack t\<rparr>)"
proof -
  from perturb_Inr [OF assms] obtain cs where
    cs: "cells f = Some cs" "idx < length cs"
    and f1: "f1 = f\<lparr>cells := Some (cs[idx := get_perturbed_cell ops (cs ! idx) r])\<rparr>"
    and t: "index t = idx" "old_cell t = cs ! idx"
    by blast
  have "f\<lparr>cells := Some cs\<rparr> = f"
    using cs(1) by simp
  then show "callback t True f1 = Inr f"
    using cs(2) by (simp add: callback_def f1 t)
  show "callback t False f1 = Inr (f1\<lparr>synth_image_stack := new_synth_image_stack t\<rparr>)"
    by (simp add: callback_def)
qed

lemma callback_keeps_cache_consistent:
  assumes "perturb ops idx r f = Inr ((d, t), f1)"
      and "generate_synth_images ops f = Inr (synth_image_stack f)"
      and "callback t accept f1 = Inr f2"
  shows "generate_synth_images ops f2 = Inr (synth_image_stack f2)"
proof (cases accept)
  case True
  with callback_after_perturb(1) [OF assms(1)] assms(3) have "f2 = f" by simp
  with assms(2) show ?thesis by simp
next
  case False
  with callback_after_perturb(2) [OF assms(1)] assms(3)
  have "f2 = f1\<lparr>synth_image_stack := new_synth_image_stack t\<rparr>" by simp
  moreover from perturb_Inr [OF assms(1)]
  have "generate_synth_images ops f1 = Inr (new_synth_image_stack t)" by blast
  ultimately show ?thesis by simp
qed

text \<open>
  C1 at the unit Frame, with the draw of index 0 and of the variant \<open>x = 1\<close>: the callback
  called with \<open>accept = True\<close> puts the old cell back and leaves the cached stack, giving
  the Frame of before the trial; called with \<open>accept = False\<close> it keeps the perturbed cell
  and stores the stack rendered during the trial.
\<close>

theorem accept_restores_old_cell:
  "perturb brighten_ops 0 1 unit_frame = Inr ((- 1, unit_trial), perturbed_frame)
   \<and> cells perturbed_frame = Some [1]
   \<and> callback unit_trial True perturbed_frame = Inr unit_frame
   \<and> cells unit_frame = Some [0]
   \<and> synth_image_stack unit_frame = \<lparr>shape = [1, 1, 1], ravel = [0]\<rparr>
   \<and> callback unit_trial False perturbed_frame = Inr committed_frame
   \<and> cells committed_frame = Some [1]
   \<and> synth_image_stack committed_frame = \<lparr>shape = [1, 1, 1], ravel = [1]\<rparr>"
proof -
  have "callback unit_trial True perturbed_frame = Inr unit_frame"
    using callback_after_perturb(1) [OF unit_perturb] .
  moreover have "callback unit_trial False perturbed_frame = Inr committed_frame"
    using callback_after_perturb(2) [OF unit_perturb]
    by (simp add: committed_frame_def perturbed_frame_def unit_trial_def)
  ultimately show ?thesis
    using unit_perturb
    by (simp add: perturbed_frame_def committed_frame_def unit_frame_def)
qed

subsection \<open>Gradient descent\<close>

lemma probe_params_spec:
  assumes "probe_params ops f orig idx old ps (cs, pg) = Inr (cs', pg')"
      and "idx < length cs" and "old = cs ! idx"
  shows "cs' = cs
         \<and> (\<forall>param. pg' param =
               (if param \<in> set ps \<and> param \<noteq> ''name''
                then (case probe_cost ops f cs idx param of
                        Inl e \<Rightarrow> None
                      | Inr new_cost \<Rightarrow> Some ((new_cost - orig) / delta))
                else pg param))
         \<and> (\<forall>param \<in> set ps. param \<noteq> ''name'' \<longrightarrow> (\<exists>c. probe_cost ops f cs idx param = Inr c))"
  using assms
proof (induction ps arbitrary: pg)
  case Nil
  then show ?case by simp
next
  case (Cons p ps)
  show ?case
  proof (cases "p = ''name''")
    case True
    with Cons.prems have "probe_params ops f orig idx old ps (cs, pg) = Inr (cs', pg')"
      by simp
    from Cons.IH [OF this Cons.prems(2,3)] True show ?thesis
      by auto
  next
    case False
    let ?cs1 = "cs[idx := get_paramaterized_cell ops (cs ! idx) [p \<mapsto> moving_delta]]"
    from Cons.prems(1) False obtain st c where
      st: "generate_synth_images ops (f\<lparr>cells := Some ?cs1\<rparr>) = Inr st"
      and c: "calculate_cost (f\<lparr>cells := Some ?cs1\<rparr>) st = Inr c"
      and rest: "probe_params ops f orig idx old ps
                   (?cs1[idx := old], pg(p \<mapsto> (c - orig) / delta)) = Inr (cs', pg')"
      by (auto simp: Let_def split: sum.splits)
    have restored: "?cs1[idx := old] = cs"
      using Cons.prems(2,3) by simp
    have pc: "probe_cost ops f cs idx p = Inr c"
      using st c by (simp add: probe_cost_def Let_def)
    from Cons.IH [OF rest [unfolded restored] Cons.prems(2,3)] pc False show ?thesis
      by auto
  qed
qed


lemma cell_gradients:
  assumes "probe_params ops f orig idx (cs ! idx) (get_cell_params ops (cs ! idx))
             (cs, Map.empty) = Inr (cs', pg)"
      and "idx < length cs"
  shows "cs' = cs \<and> pg = gradient_estimate ops f orig cs idx
         \<and> (\<forall>param \<in> set (get_cell_params ops (cs ! idx)).
               param \<noteq> ''name'' \<longrightarrow> (\<exists>c. probe_cost ops f cs idx param = Inr c))"
proof -
  note spec = probe_params_spec [OF assms(1,2) refl]
  have "pg param = gradient_estimate ops f orig cs idx param" for param
    using spec by (simp add: gradient_estimate_def)
  then have "pg = gradient_estimate ops f orig cs idx"
    by (rule ext)
  with spec show ?thesis by blast
qed

lemma gradient_pass_spec:
  assumes "gradient_pass ops f orig is (cs, dirs) = Inr (cs', dirs')"
      and "\<forall>i \<in> set is. i < length cs" and "distinct is"
  shows "cs' = cs
         \<and> (\<forall>i. dirs' i = (if i \<in> set is then dirs i ++ descent_directions ops f orig cs i
                            else dirs i))
         \<and> (\<forall>i \<in> set is.
               probe_params ops f orig i (cs ! i) (get_cell_params ops (cs ! i)) (cs, Map.empty)
                 = Inr (cs, gradient_estimate ops f orig cs i))"
  using assms
proof (induction "is" arbitrary: dirs)
  case Nil
  then show ?case by simp
next
  case (Cons idx rest)
  let ?probe = "probe_params ops f orig idx (cs ! idx) (get_cell_params ops (cs ! idx))
                  (cs, Map.empty)"
  have "\<exists>res. ?probe = Inr res"
    using Cons.prems(1) by (cases ?probe) (simp_all add: Let_def)
  then obtain cs1 pg where probe: "?probe = Inr (cs1, pg)"
    by (metis surj_pair)
  have pass: "gradient_pass ops f orig rest
                 (cs1, dirs(idx := dirs idx
                                   ++ (\<lambda>param. map_option (\<lambda>gradient. - 1 * alpha * gradient)
                                                         (pg param))))
               = Inr (cs', dirs')"
    using Cons.prems(1) by (simp only: gradient_pass.simps Let_def probe sum.case prod.case)
  have idx: "idx < length cs" using Cons.prems(2) by simp
  from cell_gradients [OF probe idx]
  have cs1: "cs1 = cs" and pg: "pg = gradient_estimate ops f orig cs idx"
    by simp_all
  have dd: "(\<lambda>param. map_option (\<lambda>gradient. - 1 * alpha * gradient) (pg param))
              = descent_directions ops f orig cs idx"
    by (rule ext) (simp add: descent_directions_def pg)
  have r: "\<forall>i \<in> set rest. i < length cs" "distinct rest" "idx \<notin> set rest"
    using Cons.prems(2,3) by simp_all
  from Cons.IH [OF pass [unfolded cs1 dd] r(1,2)] probe cs1 pg r(3)
  show ?case by auto
qed

lemma apply_directions_prefix:
  "n \<le> length cs \<Longrightarrow>
   fold (\<lambda>idx cs'. cs'[idx := g (cs' ! idx) (dirs idx)]) [0 ..< n] cs
     = map (\<lambda>i. g (cs ! i) (dirs i)) [0 ..< n] @ drop n cs"
proof (induction n)
  case 0
  then show ?case by simp
next
  case (Suc n)
  then have n: "n < length cs" by simp
  let ?done = "map (\<lambda>i. g (cs ! i) (dirs i)) [0 ..< n]"
  have "fold (\<lambda>idx cs'. cs'[idx := g (cs' ! idx) (dirs idx)]) [0 ..< Suc n] cs
          = (?done @ drop n cs)[n := g ((?done @ drop n cs) ! n) (dirs n)]"
    using Suc by simp
  also have "(?done @ drop n cs) ! n = cs ! n"
    using n by (simp add: nth_append)
  also have "(?done @ drop n cs)[n := g (cs ! n) (dirs n)]
               = ?done @ (drop n cs)[0 := g (cs ! n) (dirs n)]"
    by (simp add: list_update_append)
  also have "(drop n cs)[0 := g (cs ! n) (dirs n)] = g (cs ! n) (dirs n) # drop (Suc n) cs"
    using n by (simp add: Cons_nth_drop_Suc [symmetric])
  finally show ?case by simp
qed

lemma apply_directions_map:
  "apply_directions ops dirs cs
     = map (\<lambda>i. get_paramaterized_cell ops (cs ! i) (dirs i)) [0 ..< length cs]"
  using apply_directions_prefix [of "length cs" cs "get_paramaterized_cell ops" dirs]
  by (simp add: apply_directions_def)

lemma gradient_descent_Inr:
  assumes "gradient_descent ops f = Inr f'"
  shows "\<exists>orig cs cs1 dirs st.
           calculate_cost f (synth_image_stack f) = Inr orig
           \<and> cells f = Some cs
           \<and> gradient_pass ops f orig [0 ..< length cs] (cs, \<lambda>_. Map.empty) = Inr (cs1, dirs)
           \<and> generate_synth_images ops (f\<lparr>cells := Some (apply_directions ops dirs cs1)\<rparr>) = Inr st
           \<and> f' = f\<lparr>cells := Some (apply_directions ops dirs cs1), synth_image_stack := st\<rparr>"
  using assms
  by (auto simp: gradient_descent_def Let_def split: sum.splits option.splits)

lemma gradient_descent_cache_consistent:
  assumes "gradient_descent ops f = Inr f'"
  shows "generate_synth_images ops f' = Inr (synth_image_stack f')"
  using gradient_descent_Inr [OF assms] by auto

subsection \<open>The cached stack\<close>

text \<open>
  C2: in every Frame that a run of constructions, finalized perturbation trials (with
  either decision) and gradient-descent passes can hold, the cached synthetic stack is
  what the renderer returns for the Frame's cells.
\<close>

theorem reachable_cache_consistent:
  assumes "reachable ops f"
  shows "generate_synth_images ops f = Inr (synth_image_stack f)"
  using assms
proof (induction rule: reachable.induct)
  case (constructed real_stack cfg cs name f)
  from Frame_init_Inr [OF this] show ?case by auto
next
  case (finalized f idx r d t f1 accept f2)
  from callback_keeps_cache_consistent [OF finalized(2) finalized.IH finalized(3)]
  show ?case .
next
  case (descended f f')
  from gradient_descent_cache_consistent [OF descended(2)] show ?case .
qed

theorem reachable_cache_consistent_witness:
  "reachable brighten_ops unit_frame
   \<and> reachable brighten_ops committed_frame
   \<and> generate_synth_images brighten_ops committed_frame = Inr \<lparr>shape = [1, 1, 1], ravel = [1]\<rparr>
   \<and> reachable brighten_ops descended_frame
   \<and> generate_synth_images brighten_ops descended_frame
       = Inr \<lparr>shape = [1, 1, 1], ravel = [- 100]\<rparr>"
proof -
  have u: "reachable brighten_ops unit_frame"
    using unit_init by (rule reachable.constructed)
  have "callback unit_trial False perturbed_frame = Inr committed_frame"
    using callback_after_perturb(2) [OF unit_perturb]
    by (simp add: committed_frame_def perturbed_frame_def unit_trial_def)
  with u unit_perturb have c: "reachable brighten_ops committed_frame"
    by (rule reachable.finalized)
  from u unit_descent have d: "reachable brighten_ops descended_frame"
    by (rule reachable.descended)
  show ?thesis
    using u c d reachable_cache_consistent [OF c] reachable_cache_consistent [OF d]
    by (simp add: committed_frame_def descended_frame_def)
qed

subsection \<open>Gradient probes and the descent step\<close>



text \<open>
  C4: a gradient-descent pass that completes leaves the cell sequence untouched while the
  gradients are computed; the directions it has accumulated are those of the
  specification, computed for every cell from the cell sequence of before the pass; the
  new cell sequence is every cell shifted once by all of its directions; the cached stack
  is rendered again from it; nothing else of the Frame changes; and no cost decides
  whether the step is taken.
\<close>

theorem descent_step_unconditional:
  assumes "gradient_descent ops f = Inr f'" and "cells f = Some cs"
  shows "\<exists>orig_cost directions.
           calculate_cost f (synth_image_stack f) = Inr orig_cost
           \<and> gradient_pass ops f orig_cost [0 ..< length cs] (cs, \<lambda>_. Map.empty)
               = Inr (cs, directions)
           \<and> (\<forall>i<length cs. directions i = descent_directions ops f orig_cost cs i)
           \<and> cells f' = Some (map (\<lambda>i. get_paramaterized_cell ops (cs ! i) (directions i))
                                   [0 ..< length cs])
           \<and> generate_synth_images ops f' = Inr (synth_image_stack f')
           \<and> f' = f\<lparr>cells := cells f', synth_image_stack := synth_image_stack f'\<rparr>"
proof -
  from gradient_descent_Inr [OF assms(1)] assms(2) obtain orig cs1 dirs st where
    orig: "calculate_cost f (synth_image_stack f) = Inr orig"
    and pass: "gradient_pass ops f orig [0 ..< length cs] (cs, \<lambda>_. Map.empty) = Inr (cs1, dirs)"
    and st: "generate_synth_images ops (f\<lparr>cells := Some (apply_directions ops dirs cs1)\<rparr>) = Inr st"
    and f': "f' = f\<lparr>cells := Some (apply_directions ops dirs cs1), synth_image_stack := st\<rparr>"
    by auto
  have rng: "\<forall>i \<in> set [0 ..< length cs]. i < length cs" "distinct [0 ..< length cs]"
    by simp_all
  note spec = gradient_pass_spec [OF pass rng]
  from spec have cs1: "cs1 = cs" by blast
  from spec have dirs: "\<forall>i<length cs. dirs i = descent_directions ops f orig cs i"
    by simp
  show ?thesis
    using orig pass dirs st f'
    by (auto simp: cs1 apply_directions_map)
qed

theorem descent_step_unconditional_witness:
  "gradient_descent brighten_ops unit_frame = Inr descended_frame
   \<and> cells unit_frame = Some [0]
   \<and> calculate_cost unit_frame (synth_image_stack unit_frame) = Inr 0
   \<and> descent_directions brighten_ops unit_frame 0 [0] 0 ''x'' = Some (- 100)
   \<and> cells descended_frame = Some [- 100]
   \<and> calculate_cost descended_frame (synth_image_stack descended_frame) = Inr 100"
proof -
  have c: "cells unit_frame = Some [0]"
    by (simp add: unit_frame_def)
  have o: "calculate_cost unit_frame (synth_image_stack unit_frame) = Inr 0"
    by (simp add: unit_frame_def one_pixel_def one_pixel_cost)
  have p: "probe_cost brighten_ops unit_frame [0] 0 ''x'' = Inr 1"
    by (simp add: probe_cost_def brighten_ops_def moving_delta_def unit_render [unfolded brighten_ops_def]
          one_pixel_cost)
  have dd: "descent_directions brighten_ops unit_frame 0 [0] 0 ''x'' = Some (- 100)"
    by (simp add: descent_directions_def gradient_estimate_def p alpha_def delta_def)
       (simp add: brighten_ops_def)
  have n: "calculate_cost descended_frame (synth_image_stack descended_frame) = Inr 100"
    by (simp add: descended_frame_def unit_frame_def one_pixel_def one_pixel_cost)
  from descent_step_unconditional [OF unit_descent c] o obtain directions where
    "directions 0 = descent_directions brighten_ops unit_frame 0 [0] 0"
    "cells descended_frame
       = Some (map (\<lambda>i. get_paramaterized_cell brighten_ops ([0] ! i) (directions i))
                   [0 ..< length [0 :: real]])"
    by auto
  moreover have "get_paramaterized_cell brighten_ops a d
                   = a + (case d ''x'' of None \<Rightarrow> 0 | Some v \<Rightarrow> v)" for a d
    by (simp add: brighten_ops_def)
  ultimately have "cells descended_frame = Some [- 100]"
    by (simp add: dd)
  with unit_descent c o dd n show ?thesis
    by simp
qed

end
